theory Spec2Isabelle
  imports Main "HOL-Library.Word"
begin

section \<open>The sampling video reader of VideoDemo.cpp\<close>

text \<open>
  This theory embeds the class \<^verbatim>\<open>VideoReader\<close> of
  \<^verbatim>\<open>vision/frame-detector-video-demo/VideoDemo.cpp\<close>: its constructor, \<^verbatim>\<open>GetFrame\<close>
  and \<^verbatim>\<open>GetFrameData\<close>.

  \<^item> \<^verbatim>\<open>unsigned int sampling_frame_rate\<close> is a \<open>32 word\<close>: comparisons are unsigned,
    subtraction wraps, and an \<^verbatim>\<open>int\<close> operand that meets it in an expression is
    converted to \<^verbatim>\<open>unsigned int\<close> first (the usual arithmetic conversions of C++).
  \<^item> The type \<^verbatim>\<open>timestamp\<close> is declared outside the repository. What the code does
    with it depends on its width in two places; the model takes the width as a
    parameter \<open>T\<close>, and every statement below with a free \<open>T\<close> holds for both widths.
  \<^item> The video decoder \<^verbatim>\<open>cv::VideoCapture\<close> is an external library. It is a record of
    operations over an arbitrary decoder state \<open>'d\<close>, so every statement below that
    quantifies over the record holds for every decoder behaviour.
  \<^item> A C++ exception is a value of type \<open>error\<close>; the division by zero that C++ leaves
    undefined is an error value too, so that a model that reaches one shows it.
  \<^item> The \<^verbatim>\<open>do ... while\<close> loop of \<^verbatim>\<open>GetFrame\<close> need not terminate (a decoder may deliver
    frames for ever that the sampling gate discards); it is a partial function whose
    value \<open>None\<close> stands for a call that never returns.
\<close>

subsection \<open>Types\<close>

text \<open>
  Modelled from the spec: the type \<^verbatim>\<open>timestamp\<close> is declared in a header of the SDK,
  which the repository does not contain. The spec gives it as a signed integer count of
  milliseconds and says nothing of its width. A value of the type is an \<open>int\<close> here (the
  number it stands for), and the width is the parameter \<open>T\<close> of the model:
  \<^item> \<open>Narrow\<close>: a signed integer type that does not hold every value of
    \<^verbatim>\<open>unsigned int\<close> (\<^verbatim>\<open>int\<close>, 32 bits). In an expression with an \<^verbatim>\<open>unsigned int\<close> the
    \<^verbatim>\<open>timestamp\<close> is converted to \<^verbatim>\<open>unsigned int\<close> (modulo \<open>2 ^ 32\<close>), and an
    \<^verbatim>\<open>unsigned int\<close> assigned to a \<^verbatim>\<open>timestamp\<close> is read as two's complement.
  \<^item> \<open>Wide\<close>: a signed integer type that holds every value of \<^verbatim>\<open>unsigned int\<close>
    (\<^verbatim>\<open>long long\<close>, 64 bits). In an expression with an \<^verbatim>\<open>unsigned int\<close> the
    \<^verbatim>\<open>unsigned int\<close> is converted to \<^verbatim>\<open>timestamp\<close>, and an \<^verbatim>\<open>unsigned int\<close> assigned to a
    \<^verbatim>\<open>timestamp\<close> keeps its value.

  The width matters on line 31 (the \<^verbatim>\<open>unsigned int\<close> value of the conditional expression
  is assigned to \<^verbatim>\<open>last_timestamp_ms\<close>) and on line 61 (a difference of timestamps is
  compared with the \<^verbatim>\<open>unsigned int\<close> interval), and nowhere else. Differences of
  timestamps are the differences of the numbers: the positions a decoder reports are
  taken to be far enough from the bounds of the type for the subtraction not to overflow.
\<close>

type_synonym timestamp = int

datatype timestamp_type = Narrow | Wide

definition to_timestamp :: "timestamp_type \<Rightarrow> 32 word \<Rightarrow> timestamp" where
  "to_timestamp T u = (case T of Narrow \<Rightarrow> sint u | Wide \<Rightarrow> uint u)"

text \<open>\<^verbatim>\<open>x < u\<close> for a \<^verbatim>\<open>timestamp\<close> \<open>x\<close> and an \<^verbatim>\<open>unsigned int\<close> \<open>u\<close>.\<close>

definition less_unsigned :: "timestamp_type \<Rightarrow> timestamp \<Rightarrow> 32 word \<Rightarrow> bool" where
  "less_unsigned T x u =
     (case T of
        Narrow \<Rightarrow> (word_of_int x :: 32 word) < u
      | Wide \<Rightarrow> x < uint u)"

type_synonym path = string

datatype error =
    runtime_error string
  | division_by_zero

record 'd VideoReader =
  cap :: 'd
  last_timestamp_ms :: timestamp
  sampling_frame_rate :: "32 word"

text \<open>
  The part of the interface of \<^verbatim>\<open>cv::VideoCapture\<close> that the reader calls. \<open>'d\<close> is the
  state of the decoder, \<open>'f\<close> the contents of a \<^verbatim>\<open>cv::Mat\<close>. \<open>cap_get_pos_msec\<close> is
  \<^verbatim>\<open>cap.get(CV_CAP_PROP_POS_MSEC)\<close> after its conversion to \<^verbatim>\<open>timestamp\<close>.
\<close>

record ('d, 'f) VideoCapture =
  cap_open :: "path \<Rightarrow> 'd \<Rightarrow> 'd"
  cap_isOpened :: "'d \<Rightarrow> bool"
  cap_get_pos_msec :: "'d \<Rightarrow> timestamp"
  cap_grab :: "'d \<Rightarrow> bool \<times> 'd"
  cap_retrieve :: "'d \<Rightarrow> 'f \<Rightarrow> bool \<times> 'f \<times> 'd"

subsection \<open>Division of unsigned integers\<close>

definition udiv :: "32 word \<Rightarrow> 32 word \<Rightarrow> error + 32 word" where
  "udiv a b = (if b = 0 then Inl division_by_zero else Inr (a div b))"

subsection \<open>The extension of a path\<close>

text \<open>
  \<^verbatim>\<open>boost::filesystem::path::extension\<close>, for a path with \<^verbatim>\<open>/\<close> as separator: when the
  file name (the part after the last separator) contains a dot and is neither \<^verbatim>\<open>.\<close> nor
  \<^verbatim>\<open>..\<close>, the part of it from the last dot on; otherwise the empty path.
\<close>

definition filename :: "path \<Rightarrow> path" where
  "filename p = rev (takeWhile (\<lambda>c. c \<noteq> CHR ''/'') (rev p))"

definition extension :: "path \<Rightarrow> path" where
  "extension p =
     (let f = filename p in
      if CHR ''.'' \<in> set f \<and> f \<noteq> ''.'' \<and> f \<noteq> ''..''
      then CHR ''.'' # rev (takeWhile (\<lambda>c. c \<noteq> CHR ''.'') (rev f))
      else [])"

definition SUPPORTED_EXTS :: "path set" where
  "SUPPORTED_EXTS = {''.avi'', ''.mov'', ''.flv'', ''.webm'', ''.wmv'', ''.mp4''}"

subsection \<open>The constructor\<close>

text \<open>
  The names the spec gives to the three exceptions of the constructor. All three are
  \<^verbatim>\<open>std::runtime_error\<close> in the source and differ in their message.
\<close>

definition InvalidArgument :: error where
  "InvalidArgument = runtime_error ''Specified sampling rate is < 0''"

definition UnsupportedFormat :: "path \<Rightarrow> error" where
  "UnsupportedFormat ext = runtime_error (''Unsupported file extension: '' @ ext)"

definition OpenFailure :: "path \<Rightarrow> error" where
  "OpenFailure file_path = runtime_error (''Error opening video/image file: '' @ file_path)"

text \<open>
  The initial value of \<^verbatim>\<open>last_timestamp_ms\<close>, line 31:
  \<^verbatim>\<open>sampling_frame_rate == 0 ? -1 : (0 - 1000 / sampling_frame_rate)\<close>.
  The third operand is an \<^verbatim>\<open>unsigned int\<close>, so the conditional expression is one and the
  \<^verbatim>\<open>-1\<close> of the second operand is converted to it.
\<close>

definition initial_timestamp :: "32 word \<Rightarrow> error + 32 word" where
  "initial_timestamp rate =
     (if rate = 0 then Inr (- 1)
      else case udiv 1000 rate of
             Inl e \<Rightarrow> Inl e
           | Inr q \<Rightarrow> Inr (0 - q))"

text \<open>
  \<open>cap0\<close> is the default-constructed member \<^verbatim>\<open>cap\<close>. The \<^verbatim>\<open>unsigned int\<close> value of line
  31 becomes a \<^verbatim>\<open>timestamp\<close> by \<open>to_timestamp\<close>. An exception leaves the constructor
  with the decoder in the state it had when it was thrown; the result carries that
  state, so that a call of \<^verbatim>\<open>cap.open\<close> before the exception is visible.
\<close>

definition VideoReader_ctor ::
  "('d, 'f) VideoCapture \<Rightarrow> timestamp_type \<Rightarrow> 'd \<Rightarrow> path \<Rightarrow> 32 word \<Rightarrow>
     (error \<times> 'd) + 'd VideoReader" where
  "VideoReader_ctor V T cap0 file_path rate =
     (if rate < 0 then Inl (InvalidArgument, cap0)
      else case initial_timestamp rate of
        Inl e \<Rightarrow> Inl (e, cap0)
      | Inr s \<Rightarrow>
          (let ext = extension file_path in
           if ext \<notin> SUPPORTED_EXTS then Inl (UnsupportedFormat ext, cap0)
           else
             (let c = cap_open V file_path cap0 in
              if \<not> cap_isOpened V c then Inl (OpenFailure file_path, c)
              else Inr \<lparr>cap = c, last_timestamp_ms = to_timestamp T s,
                        sampling_frame_rate = rate\<rparr>)))"

subsection \<open>GetFrameData\<close>

definition MAX_ATTEMPTS :: int where
  "MAX_ATTEMPTS = 2"

text \<open>
  One round of \<^verbatim>\<open>cap.grab(); cap.retrieve(bgr_frame); cap.get(CV_CAP_PROP_POS_MSEC)\<close>.
  \<^verbatim>\<open>retrieve\<close> is called whatever \<^verbatim>\<open>grab\<close> returned.
\<close>

definition attempt ::
  "('d, 'f) VideoCapture \<Rightarrow> 'd \<Rightarrow> 'f \<Rightarrow> bool \<times> bool \<times> 'f \<times> timestamp \<times> 'd" where
  "attempt V c bgr_frame =
     (let (frame_found, c1) = cap_grab V c;
          (frame_retrieved, bgr_frame', c2) = cap_retrieve V c1 bgr_frame
      in (frame_found, frame_retrieved, bgr_frame', cap_get_pos_msec V c2, c2))"

text \<open>
  The loop \<^verbatim>\<open>while (!(frame_found && frame_retrieved) && n_attempts++ < MAX_ATTEMPTS)\<close>.
  The increment belongs to the second conjunct: it happens only when the first holds,
  and also when the comparison then fails.
\<close>

function retry ::
  "('d, 'f) VideoCapture \<Rightarrow> 'd \<Rightarrow> 'f \<Rightarrow> bool \<Rightarrow> bool \<Rightarrow> timestamp \<Rightarrow> int \<Rightarrow>
     bool \<times> bool \<times> 'f \<times> timestamp \<times> int \<times> 'd" where
  "retry V c bgr_frame frame_found frame_retrieved timestamp_ms n_attempts =
     (if \<not> (frame_found \<and> frame_retrieved) then
        (if n_attempts < MAX_ATTEMPTS then
           (case attempt V c bgr_frame of
              (frame_found', frame_retrieved', bgr_frame', timestamp_ms', c') \<Rightarrow>
                retry V c' bgr_frame' frame_found' frame_retrieved' timestamp_ms' (n_attempts + 1))
         else (frame_found, frame_retrieved, bgr_frame, timestamp_ms, n_attempts + 1, c))
      else (frame_found, frame_retrieved, bgr_frame, timestamp_ms, n_attempts, c))"
  by pat_completeness auto
termination
  by (relation "measure (\<lambda>(V, c, m, ff, fr, ts, n). nat (MAX_ATTEMPTS - n))") auto

declare retry.simps [simp del]

definition GetFrameData ::
  "('d, 'f) VideoCapture \<Rightarrow> 'd VideoReader \<Rightarrow> 'f \<Rightarrow> bool \<times> 'f \<times> timestamp \<times> 'd VideoReader" where
  "GetFrameData V r bgr_frame =
     (let prev_timestamp_ms = cap_get_pos_msec V (cap r) in
      case attempt V (cap r) bgr_frame of
        (frame_found0, frame_retrieved0, bgr_frame0, timestamp_ms0, c0) \<Rightarrow>
      case retry V c0 bgr_frame0 frame_found0 frame_retrieved0 timestamp_ms0 0 of
        (frame_found1, frame_retrieved, bgr_frame', timestamp_ms, n_attempts, c) \<Rightarrow>
      (let frame_found =
             (if frame_found1 \<and> frame_retrieved \<and> 0 < n_attempts
              then (if timestamp_ms \<le> prev_timestamp_ms then False else frame_found1)
              else frame_found1)
       in (frame_found \<and> frame_retrieved, bgr_frame', timestamp_ms, r\<lparr>cap := c\<rparr>)))"

subsection \<open>GetFrame\<close>

text \<open>
  The condition of the \<^verbatim>\<open>do ... while\<close> loop, evaluated from left to right as \<^verbatim>\<open>&&\<close> does:
  the division is reached only when the two conjuncts before it hold. The third
  conjunct compares a \<^verbatim>\<open>timestamp\<close> with an \<^verbatim>\<open>unsigned int\<close>.
\<close>

definition GetFrame_cond ::
  "timestamp_type \<Rightarrow> 'd VideoReader \<Rightarrow> timestamp \<Rightarrow> bool \<Rightarrow> error + bool" where
  "GetFrame_cond T r timestamp_ms frame_data_loaded =
     (if 0 < sampling_frame_rate r then
        (if 0 < timestamp_ms then
           (case udiv 1000 (sampling_frame_rate r) of
              Inl e \<Rightarrow> Inl e
            | Inr q \<Rightarrow>
                Inr (less_unsigned T (timestamp_ms - last_timestamp_ms r) q \<and>
                     frame_data_loaded))
         else Inr False)
      else Inr False)"

partial_function (option) GetFrame_loop ::
  "('d, 'f) VideoCapture \<Rightarrow> timestamp_type \<Rightarrow> 'd VideoReader \<Rightarrow> 'f \<Rightarrow>
     (error + bool \<times> 'f \<times> timestamp \<times> 'd VideoReader) option" where
  "GetFrame_loop V T r bgr_frame =
     (case GetFrameData V r bgr_frame of
        (frame_data_loaded, bgr_frame', timestamp_ms, r') \<Rightarrow>
          (case GetFrame_cond T r' timestamp_ms frame_data_loaded of
             Inl e \<Rightarrow> Some (Inl e)
           | Inr again \<Rightarrow>
               if again then GetFrame_loop V T r' bgr_frame'
               else Some (Inr (frame_data_loaded, bgr_frame', timestamp_ms, r'))))"

declare GetFrame_loop.simps [code]

definition GetFrame ::
  "('d, 'f) VideoCapture \<Rightarrow> timestamp_type \<Rightarrow> 'd VideoReader \<Rightarrow> 'f \<Rightarrow>
     (error + bool \<times> 'f \<times> timestamp \<times> 'd VideoReader) option" where
  "GetFrame V T r bgr_frame =
     (case GetFrame_loop V T r bgr_frame of
        None \<Rightarrow> None
      | Some (Inl e) \<Rightarrow> Some (Inl e)
      | Some (Inr (frame_data_loaded, bgr_frame', timestamp_ms, r')) \<Rightarrow>
          Some (Inr (frame_data_loaded, bgr_frame', timestamp_ms,
                     r'\<lparr>last_timestamp_ms := timestamp_ms\<rparr>)))"

subsection \<open>Sequences of calls and decoders at the end of their stream\<close>

text \<open>
  The result of the last of \<open>n + 1\<close> calls of \<^verbatim>\<open>GetFrame\<close> in a row on the same reader
  and the same \<^verbatim>\<open>cv::Mat\<close>, whatever the calls before it returned. A call that does not
  return, or that ends in an error, ends the sequence.
\<close>

fun GetFrame_calls ::
  "('d, 'f) VideoCapture \<Rightarrow> timestamp_type \<Rightarrow> nat \<Rightarrow> 'd VideoReader \<Rightarrow> 'f \<Rightarrow>
     (error + bool \<times> 'f \<times> timestamp \<times> 'd VideoReader) option" where
  "GetFrame_calls V T 0 r bgr_frame = GetFrame V T r bgr_frame"
| "GetFrame_calls V T (Suc n) r bgr_frame =
     (case GetFrame V T r bgr_frame of
        Some (Inr (frame_data_loaded, bgr_frame', timestamp_ms, r')) \<Rightarrow>
          GetFrame_calls V T n r' bgr_frame'
      | res \<Rightarrow> res)"

text \<open>
  What \<open>n\<close> calls of \<^verbatim>\<open>GetFrame\<close> in a row return, in the order of the calls: for each
  call the value returned and the timestamp it left in \<^verbatim>\<open>timestamp_ms\<close>. The calls go on
  after one that returned false. \<open>None\<close> when a call does not return or ends in an error.
\<close>

fun GetFrame_results ::
  "('d, 'f) VideoCapture \<Rightarrow> timestamp_type \<Rightarrow> nat \<Rightarrow> 'd VideoReader \<Rightarrow> 'f \<Rightarrow>
     (bool \<times> timestamp) list option" where
  "GetFrame_results V T 0 r bgr_frame = Some []"
| "GetFrame_results V T (Suc n) r bgr_frame =
     (case GetFrame V T r bgr_frame of
        Some (Inr (frame_data_loaded, bgr_frame', timestamp_ms, r')) \<Rightarrow>
          (case GetFrame_results V T n r' bgr_frame' of
             Some results \<Rightarrow> Some ((frame_data_loaded, timestamp_ms) # results)
           | None \<Rightarrow> None)
      | _ \<Rightarrow> None)"

text \<open>
  The same for a reader constructed for the purpose, as \<^verbatim>\<open>main\<close> does before its loop:
  \<^verbatim>\<open>VideoReader video_reader(video_path, sampling_frame_rate)\<close>, then \<open>n\<close> calls.
\<close>

definition fresh_results ::
  "('d, 'f) VideoCapture \<Rightarrow> timestamp_type \<Rightarrow> 'd \<Rightarrow> path \<Rightarrow> 32 word \<Rightarrow> nat \<Rightarrow> 'f \<Rightarrow>
     (bool \<times> timestamp) list option" where
  "fresh_results V T cap0 video_path rate n mat =
     (case VideoReader_ctor V T cap0 video_path rate of
        Inl e \<Rightarrow> None
      | Inr video_reader \<Rightarrow> GetFrame_results V T n video_reader mat)"

text \<open>
  A decoder fails definitively when every round of grab and retrieve from now on fails
  (one of the two calls returns false). \<open>(after_attempt V ^^ n) (c, bgr_frame)\<close> is the
  state of decoder and \<^verbatim>\<open>cv::Mat\<close> after \<open>n\<close> rounds.
\<close>

definition attempt_fails :: "('d, 'f) VideoCapture \<Rightarrow> 'd \<times> 'f \<Rightarrow> bool" where
  "attempt_fails V s =
     (case attempt V (fst s) (snd s) of
        (frame_found, frame_retrieved, bgr_frame', timestamp_ms, c') \<Rightarrow>
          \<not> (frame_found \<and> frame_retrieved))"

definition after_attempt :: "('d, 'f) VideoCapture \<Rightarrow> 'd \<times> 'f \<Rightarrow> 'd \<times> 'f" where
  "after_attempt V s =
     (case attempt V (fst s) (snd s) of
        (frame_found, frame_retrieved, bgr_frame', timestamp_ms, c') \<Rightarrow> (c', bgr_frame'))"

definition fails_definitively :: "('d, 'f) VideoCapture \<Rightarrow> 'd \<Rightarrow> 'f \<Rightarrow> bool" where
  "fails_definitively V c bgr_frame =
     (\<forall>n. attempt_fails V ((after_attempt V ^^ n) (c, bgr_frame)))"

subsection \<open>A scripted decoder\<close>

text \<open>
  A decoder for the concrete runs below. Its script lists the outcome of each coming
  round: whether \<^verbatim>\<open>grab\<close> succeeds, whether \<^verbatim>\<open>retrieve\<close> succeeds, and the position in
  milliseconds reported afterwards. Past the end of the script both calls fail and the
  position is 0. A retrieved frame is identified with its position. \<open>opened\<close> records
  whether \<^verbatim>\<open>open\<close> was called.
\<close>

record scripted =
  opened :: bool
  pos_msec :: timestamp
  retrievable :: bool
  script :: "(bool \<times> bool \<times> timestamp) list"

definition scripted_grab :: "scripted \<Rightarrow> bool \<times> scripted" where
  "scripted_grab d =
     (case script d of
        [] \<Rightarrow> (False, d\<lparr>pos_msec := 0, retrievable := False\<rparr>)
      | (g, rt, p) # rest \<Rightarrow> (g, d\<lparr>pos_msec := p, retrievable := rt, script := rest\<rparr>))"

definition scripted_retrieve :: "scripted \<Rightarrow> timestamp \<Rightarrow> bool \<times> timestamp \<times> scripted" where
  "scripted_retrieve d bgr_frame =
     (if retrievable d then (True, pos_msec d, d) else (False, bgr_frame, d))"

definition scripted_capture :: "(scripted, timestamp) VideoCapture" where
  "scripted_capture =
     \<lparr>cap_open = (\<lambda>file_path d. d\<lparr>opened := True\<rparr>),
      cap_isOpened = opened,
      cap_get_pos_msec = pos_msec,
      cap_grab = scripted_grab,
      cap_retrieve = scripted_retrieve\<rparr>"

definition closed_capture :: "(bool \<times> bool \<times> timestamp) list \<Rightarrow> scripted" where
  "closed_capture outcomes =
     \<lparr>opened = False, pos_msec = 0, retrievable = False, script = outcomes\<rparr>"

definition frames_at :: "timestamp list \<Rightarrow> (bool \<times> bool \<times> timestamp) list" where
  "frames_at = map (\<lambda>t. (True, True, t))"

definition scripted_at ::
  "timestamp \<Rightarrow> bool \<Rightarrow> (bool \<times> bool \<times> timestamp) list \<Rightarrow> scripted" where
  "scripted_at p b outcomes =
     \<lparr>opened = True, pos_msec = p, retrievable = b, script = outcomes\<rparr>"

subsection \<open>The spacing left by the sampling gate\<close>

text \<open>
  What the exit of the \<^verbatim>\<open>do ... while\<close> loop of \<^verbatim>\<open>GetFrame\<close> with a loaded frame says
  about its timestamp \<open>t2\<close> and the value \<open>t1\<close> of \<^verbatim>\<open>last_timestamp_ms\<close> at the call.
\<close>

definition spaced :: "timestamp_type \<Rightarrow> 32 word \<Rightarrow> timestamp \<Rightarrow> timestamp \<Rightarrow> bool" where
  "spaced T rate t1 t2 =
     (0 < rate \<longrightarrow> 0 < t2 \<longrightarrow> \<not> less_unsigned T (t2 - t1) (1000 div rate))"

section \<open>Auxiliary facts\<close>

subsection \<open>Divisions and the loop condition\<close>

lemma initial_timestamp_eq:
  "initial_timestamp rate = Inr (if rate = 0 then - 1 else 0 - 1000 div rate)"
  by (simp add: initial_timestamp_def udiv_def)

lemma GetFrame_cond_eq:
  "GetFrame_cond T r ts ok =
     Inr (0 < sampling_frame_rate r \<and> 0 < ts \<and>
          less_unsigned T (ts - last_timestamp_ms r) (1000 div sampling_frame_rate r) \<and> ok)"
  by (auto simp add: GetFrame_cond_def udiv_def)

lemma retry_done:
  "ff \<and> fr \<Longrightarrow> retry V c m ff fr ts n = (ff, fr, m, ts, n, c)"
  by (subst retry.simps) simp

lemma retry_exhausted:
  "\<not> (ff \<and> fr) \<Longrightarrow> \<not> n < 2 \<Longrightarrow> retry V c m ff fr ts n = (ff, fr, m, ts, n + 1, c)"
  by (subst retry.simps) (simp add: MAX_ATTEMPTS_def)

lemma retry_again:
  "\<not> (ff \<and> fr) \<Longrightarrow> n < 2 \<Longrightarrow> attempt V c m = (ff', fr', m', ts', c') \<Longrightarrow>
   retry V c m ff fr ts n = retry V c' m' ff' fr' ts' (n + 1)"
  by (subst retry.simps) (simp add: MAX_ATTEMPTS_def)

lemma GetFrameData_fields:
  "GetFrameData V r m = (ok, m', ts, r') \<Longrightarrow>
   last_timestamp_ms r' = last_timestamp_ms r \<and> sampling_frame_rate r' = sampling_frame_rate r"
  by (auto simp add: GetFrameData_def Let_def split: prod.splits)

lemma GetFrameData_first:
  assumes "attempt V (cap r) m = (True, True, m0, ts0, c0)"
  shows "GetFrameData V r m = (True, m0, ts0, r\<lparr>cap := c0\<rparr>)"
  using assms by (simp add: GetFrameData_def retry_done)

lemma GetFrameData_second:
  assumes "attempt V (cap r) m = (ff0, fr0, m0, ts0, c0)" "\<not> (ff0 \<and> fr0)"
    and "attempt V c0 m0 = (True, True, m1, ts1, c1)"
  shows "GetFrameData V r m = (cap_get_pos_msec V (cap r) < ts1, m1, ts1, r\<lparr>cap := c1\<rparr>)"
proof -
  have "retry V c0 m0 ff0 fr0 ts0 0 = (True, True, m1, ts1, 1, c1)"
    using retry_again [OF assms(2) _ assms(3), of 0 ts0] by (simp add: retry_done)
  then show ?thesis
    using assms(1) by (auto simp add: GetFrameData_def)
qed

lemma GetFrameData_third:
  assumes "attempt V (cap r) m = (ff0, fr0, m0, ts0, c0)" "\<not> (ff0 \<and> fr0)"
    and "attempt V c0 m0 = (ff1, fr1, m1, ts1, c1)" "\<not> (ff1 \<and> fr1)"
    and "attempt V c1 m1 = (ff2, fr2, m2, ts2, c2)"
  shows "GetFrameData V r m =
           (ff2 \<and> fr2 \<and> cap_get_pos_msec V (cap r) < ts2, m2, ts2, r\<lparr>cap := c2\<rparr>)"
proof -
  have "retry V c0 m0 ff0 fr0 ts0 0 = retry V c2 m2 ff2 fr2 ts2 2"
    using retry_again [OF assms(2) _ assms(3), of 0 ts0]
      retry_again [OF assms(4) _ assms(5), of 1 ts1] by simp
  also have "\<dots> = (ff2, fr2, m2, ts2, if ff2 \<and> fr2 then 2 else 3, c2)"
    by (cases "ff2 \<and> fr2") (simp_all add: retry_done retry_exhausted)
  finally show ?thesis
    using assms(1) by (auto simp add: GetFrameData_def)
qed


subsection \<open>What a call of GetFrame leaves\<close>

lemma GetFrame_loop_post:
  "GetFrame_loop V T r m = Some res \<Longrightarrow>
   (\<exists>ok m' ts r'. res = Inr (ok, m', ts, r') \<and>
      last_timestamp_ms r' = last_timestamp_ms r \<and>
      sampling_frame_rate r' = sampling_frame_rate r \<and>
      (ok \<longrightarrow> spaced T (sampling_frame_rate r) (last_timestamp_ms r) ts))"
proof (induction V T r m res rule: GetFrame_loop.raw_induct [rotated 1, consumes 1])
  case (1 loop V T r m res)
  obtain ok m1 ts r1 where d: "GetFrameData V r m = (ok, m1, ts, r1)"
    by (cases "GetFrameData V r m") auto
  note f = GetFrameData_fields [OF d]
  show ?case
  proof (cases "0 < sampling_frame_rate r \<and> 0 < ts \<and>
      less_unsigned T (ts - last_timestamp_ms r) (1000 div sampling_frame_rate r) \<and> ok")
    case True
    with 1(2) d f have "loop V T r1 m1 = Some res"
      by (simp add: GetFrame_cond_eq)
    from 1(1) [OF this] f show ?thesis by simp
  next
    case False
    with 1(2) d f have "res = Inr (ok, m1, ts, r1)"
      by (auto simp add: GetFrame_cond_eq)
    with False f show ?thesis by (auto simp add: spaced_def)
  qed
qed

lemma GetFrame_post:
  assumes "GetFrame V T r m = Some (Inr (ok, m', ts, r'))"
  shows "last_timestamp_ms r' = ts"
    and "sampling_frame_rate r' = sampling_frame_rate r"
    and "ok \<Longrightarrow> spaced T (sampling_frame_rate r) (last_timestamp_ms r) ts"
proof -
  from assms obtain res where l: "GetFrame_loop V T r m = Some res"
    by (cases "GetFrame_loop V T r m") (auto simp add: GetFrame_def)
  from GetFrame_loop_post [OF l] obtain ok0 m0 ts0 r0 where
    res: "res = Inr (ok0, m0, ts0, r0)"
    and f: "last_timestamp_ms r0 = last_timestamp_ms r"
      "sampling_frame_rate r0 = sampling_frame_rate r"
    and g: "ok0 \<longrightarrow> spaced T (sampling_frame_rate r) (last_timestamp_ms r) ts0"
    by blast
  from assms l res have e: "ok = ok0" "ts = ts0" "r' = r0\<lparr>last_timestamp_ms := ts0\<rparr>"
    by (auto simp add: GetFrame_def)
  show "last_timestamp_ms r' = ts" using e by simp
  show "sampling_frame_rate r' = sampling_frame_rate r" using e f by simp
  show "ok \<Longrightarrow> spaced T (sampling_frame_rate r) (last_timestamp_ms r) ts"
    using e g by simp
qed

lemma GetFrame_no_error: "GetFrame V T r m \<noteq> Some (Inl e)"
proof
  assume a: "GetFrame V T r m = Some (Inl e)"
  then obtain res where l: "GetFrame_loop V T r m = Some res"
    by (cases "GetFrame_loop V T r m") (auto simp add: GetFrame_def)
  from GetFrame_loop_post [OF l] a l show False
    by (auto simp add: GetFrame_def)
qed

lemma GetFrame_of_failed_fetch:
  assumes "GetFrameData V r m = (False, m', ts, r')"
  shows "GetFrame V T r m = Some (Inr (False, m', ts, r'\<lparr>last_timestamp_ms := ts\<rparr>))"
proof -
  have "GetFrame_loop V T r m = Some (Inr (False, m', ts, r'))"
    by (subst GetFrame_loop.simps) (simp add: assms GetFrame_cond_eq)
  then show ?thesis by (simp add: GetFrame_def)
qed

lemma GetFrame_rate_0:
  assumes "sampling_frame_rate r = 0"
  shows "GetFrame V T r m =
     (case GetFrameData V r m of
        (ok, m', ts, r') \<Rightarrow> Some (Inr (ok, m', ts, r'\<lparr>last_timestamp_ms := ts\<rparr>)))"
proof -
  obtain ok m1 ts r1 where d: "GetFrameData V r m = (ok, m1, ts, r1)"
    by (cases "GetFrameData V r m") auto
  from GetFrameData_fields [OF d] assms have "sampling_frame_rate r1 = 0" by simp
  then have "GetFrame_loop V T r m = Some (Inr (ok, m1, ts, r1))"
    by (subst GetFrame_loop.simps) (simp add: d GetFrame_cond_eq)
  then show ?thesis by (simp add: GetFrame_def d)
qed

subsection \<open>The spacing\<close>

text \<open>
  For a timestamp that is not below the one before it, the comparison of line 61 is the
  comparison of the numbers, whatever the width; for a wide type it is so in any case.
\<close>

lemma spaced_gap:
  assumes "spaced T rate t1 t2" and "0 < rate" and "0 < t2" and "T = Wide \<or> t1 \<le> t2"
  shows "uint (1000 div rate) \<le> t2 - t1"
proof (cases T)
  case Wide
  with assms(1,2,3) show ?thesis by (simp add: spaced_def less_unsigned_def)
next
  case Narrow
  with assms(4) have d: "0 \<le> t2 - t1" by simp
  from Narrow assms(1,2,3) have "1000 div rate \<le> (word_of_int (t2 - t1) :: 32 word)"
    by (simp add: spaced_def less_unsigned_def)
  then have "uint (1000 div rate) \<le> uint (word_of_int (t2 - t1) :: 32 word)"
    by (simp add: word_le_def)
  also have "\<dots> = (t2 - t1) mod 2 ^ 32"
    unfolding uint_word_of_int take_bit_eq_mod by simp
  also have "\<dots> \<le> t2 - t1"
    using d by (rule zmod_le_nonneg_dividend)
  finally show ?thesis .
qed

lemma interval_pos:
  fixes rate :: "32 word"
  assumes "0 < rate" "rate \<le> 1000"
  shows "1 \<le> uint (1000 div rate)"
proof -
  have "0 < uint rate" using assms(1) by (simp add: word_less_def)
  moreover have "uint rate \<le> 1000" using assms(2) by (simp add: word_le_def)
  ultimately have "0 < 1000 div uint rate"
    using pos_imp_zdiv_pos_iff [of "uint rate" 1000] by simp
  then show ?thesis by (simp add: uint_div)
qed

lemma interval_le: "uint (1000 div rate :: 32 word) \<le> 1000"
proof -
  have "uint (1000 div rate) = 1000 div uint rate" by (simp add: uint_div)
  also have "\<dots> \<le> 1000"
    by (rule int_div_le_self) simp
  finally show ?thesis .
qed

lemma sint_minus_interval:
  "sint (0 - 1000 div rate :: 32 word) = - uint (1000 div rate)"
proof -
  have "sint (0 - 1000 div rate) = sint (word_of_int (- uint (1000 div rate)) :: 32 word)"
    by simp
  also have "\<dots> = signed_take_bit 31 (- uint (1000 div rate))"
    unfolding sint_sbintrunc' by simp
  also have "\<dots> = - uint (1000 div rate)"
  proof (rule signed_take_bit_int_eq_self)
    show "- (2 ^ 31) \<le> - uint (1000 div rate)"
      using interval_le [of rate] by simp
    have "- uint (1000 div rate) \<le> 0" by simp
    also have "(0 :: int) < 2 ^ 31" by simp
    finally show "- uint (1000 div rate) < 2 ^ 31" .
  qed
  finally show ?thesis .
qed

subsection \<open>Decoders that fail definitively\<close>

lemma fails_definitively_step:
  assumes "fails_definitively V c m" and "attempt V c m = (ff, fr, m', ts, c')"
  shows "\<not> (ff \<and> fr)" and "fails_definitively V c' m'"
proof -
  from assms(1) have "attempt_fails V ((after_attempt V ^^ 0) (c, m))"
    unfolding fails_definitively_def by blast
  with assms(2) show "\<not> (ff \<and> fr)" by (simp add: attempt_fails_def)
  have s: "after_attempt V (c, m) = (c', m')"
    using assms(2) by (simp add: after_attempt_def)
  show "fails_definitively V c' m'"
    unfolding fails_definitively_def
  proof
    fix n
    from assms(1) have "attempt_fails V ((after_attempt V ^^ Suc n) (c, m))"
      unfolding fails_definitively_def by blast
    then show "attempt_fails V ((after_attempt V ^^ n) (c', m'))"
      by (simp add: funpow_swap1 s)
  qed
qed

lemma GetFrame_fails_definitively:
  assumes "fails_definitively V (cap r) m"
  shows "\<exists>m' ts r'. GetFrame V T r m = Some (Inr (False, m', ts, r')) \<and>
           fails_definitively V (cap r') m'"
proof -
  obtain ff0 fr0 m0 ts0 c0 where a0: "attempt V (cap r) m = (ff0, fr0, m0, ts0, c0)"
    by (cases "attempt V (cap r) m") auto
  obtain ff1 fr1 m1 ts1 c1 where a1: "attempt V c0 m0 = (ff1, fr1, m1, ts1, c1)"
    by (cases "attempt V c0 m0") auto
  obtain ff2 fr2 m2 ts2 c2 where a2: "attempt V c1 m1 = (ff2, fr2, m2, ts2, c2)"
    by (cases "attempt V c1 m1") auto
  note s0 = fails_definitively_step [OF assms a0]
  note s1 = fails_definitively_step [OF s0(2) a1]
  note s2 = fails_definitively_step [OF s1(2) a2]
  from GetFrameData_third [OF a0 s0(1) a1 s1(1) a2] s2(1)
  have "GetFrameData V r m = (False, m2, ts2, r\<lparr>cap := c2\<rparr>)" by auto
  from GetFrame_of_failed_fetch [OF this] s2(2) show ?thesis by simp
qed

subsection \<open>Calls in a row\<close>

lemma GetFrame_results_spaced:
  "GetFrame_results V T n r m = Some results \<Longrightarrow> \<forall>p\<in>set results. fst p \<Longrightarrow>
   successively (spaced T (sampling_frame_rate r)) (last_timestamp_ms r # map snd results)"
proof (induction n arbitrary: r m results)
  case 0
  then show ?case by simp
next
  case (Suc n)
  from Suc.prems(1) obtain y where g: "GetFrame V T r m = Some y"
    by (cases "GetFrame V T r m") auto
  with GetFrame_no_error [of V T r m] obtain ok m' ts r' where
    y: "y = Inr (ok, m', ts, r')" by (cases y) auto
  note p = GetFrame_post [OF g [unfolded y]]
  from Suc.prems(1) g y obtain rest where
    rest: "GetFrame_results V T n r' m' = Some rest" and res: "results = (ok, ts) # rest"
    by (cases "GetFrame_results V T n r' m'") auto
  from Suc.prems(2) res have ok and all: "\<forall>p\<in>set rest. fst p" by simp_all
  from Suc.IH [OF rest all] p(1,2)
  have "successively (spaced T (sampling_frame_rate r)) (ts # map snd rest)" by simp
  with p(3) [OF \<open>ok\<close>] res show ?case by simp
qed

lemma successively_spaced_gap:
  assumes "0 < rate"
  shows "successively (spaced T rate) ts \<Longrightarrow> \<forall>t\<in>set (tl ts). 0 < t \<Longrightarrow>
    T = Wide \<or> sorted ts \<Longrightarrow>
    successively (\<lambda>t1 t2. uint (1000 div rate) \<le> t2 - t1) ts"
proof (induction ts rule: induct_list012)
  case (3 x y zs)
  from 3(3,4,5) assms have "uint (1000 div rate) \<le> y - x"
    by (intro spaced_gap [of T rate x y]) auto
  moreover from 3(2,3,4,5) have "successively (\<lambda>t1 t2. uint (1000 div rate) \<le> t2 - t1) (y # zs)"
    by auto
  ultimately show ?case by simp
qed simp_all

lemma successively_gap_sorted:
  fixes ts :: "timestamp list"
  assumes "successively (\<lambda>t1 t2. q \<le> t2 - t1) ts"
  shows "0 \<le> q \<Longrightarrow> sorted ts" and "1 \<le> q \<Longrightarrow> sorted_wrt (<) ts"
proof -
  assume "0 \<le> q"
  then have "successively (\<le>) ts"
    using assms by (induction ts rule: induct_list012) auto
  then show "sorted ts"
    by (simp add: successively_conv_sorted_wrt)
next
  assume "1 \<le> q"
  then have "successively (<) ts"
    using assms by (induction ts rule: induct_list012) auto
  then show "sorted_wrt (<) ts"
    by (simp add: successively_conv_sorted_wrt)
qed

subsection \<open>The constructor\<close>

lemma never_InvalidArgument:
  "VideoReader_ctor V T cap0 file_path rate \<noteq> Inl (InvalidArgument, c)"
  by (simp add: VideoReader_ctor_def initial_timestamp_eq Let_def
        InvalidArgument_def UnsupportedFormat_def OpenFailure_def)

lemma sentinel_value:
  assumes "VideoReader_ctor V T cap0 file_path rate = Inr r"
  shows "last_timestamp_ms r = to_timestamp T (if rate = 0 then - 1 else 0 - 1000 div rate)"
  using assms
  by (auto simp add: VideoReader_ctor_def initial_timestamp_eq Let_def split: if_splits)

subsection \<open>The scripted decoder at the end of its script\<close>

lemma scripted_end_attempt:
  assumes "script (fst s) = []"
  shows "attempt_fails scripted_capture s"
    and "script (fst (after_attempt scripted_capture s)) = []"
  using assms
  by (simp_all add: attempt_fails_def after_attempt_def attempt_def scripted_capture_def
      scripted_grab_def scripted_retrieve_def)

lemma scripted_end_attempts:
  "script (fst s) = [] \<Longrightarrow> script (fst ((after_attempt scripted_capture ^^ n) s)) = []"
  by (induction n) (simp_all add: scripted_end_attempt(2))

lemma scripted_end_fails_definitively:
  "script d = [] \<Longrightarrow> fails_definitively scripted_capture d bgr_frame"
  unfolding fails_definitively_def
  by (intro allI scripted_end_attempt(1) scripted_end_attempts) simp

section \<open>The claims\<close>

subsection \<open>C1: timestamps of accepted frames\<close>

text \<open>
  C1 as stated: any two frames accepted from the same source in pull order have strictly
  increasing timestamps, for every decoder behaviour, a decoder whose first grab/retrieve
  attempt succeeds with a repeated or zero timestamp included.

  It fails, whatever the width of \<^verbatim>\<open>timestamp\<close>. With sampling rate 0 the gate is off,
  and a frame decoded at the first attempt is returned without any look at its
  timestamp: of a decoder that reports 40 ms for two frames in a row, both frames are
  returned.
\<close>

theorem repeated_timestamp_accepted:
  "fresh_results scripted_capture Narrow (closed_capture (frames_at [40, 40])) ''clip.mp4'' 0 2 0 =
     Some [(True, 40), (True, 40)] \<and>
   fresh_results scripted_capture Wide (closed_capture (frames_at [40, 40])) ''clip.mp4'' 0 2 0 =
     Some [(True, 40), (True, 40)] \<and>
   \<not> sorted_wrt (<) [40 :: timestamp, 40]"
  by code_simp

text \<open>
  With sampling on, a timestamp is repeated as well
  \<^item> when it is zero (the gate looks at positive timestamps only),
  \<^item> at a rate above 1000, where the interval \<^verbatim>\<open>1000 / sampling_frame_rate\<close> is 0,
  \<^item> after a call that returned false, which leaves the timestamp of its failed fetch in
    \<^verbatim>\<open>last_timestamp_ms\<close>: here three failing rounds between the frame at 200 ms and its
    replay.

  For a narrow \<^verbatim>\<open>timestamp\<close> the comparison of line 61 is unsigned, and a frame whose
  timestamp is below the last one passes the gate: 50 ms after 200 ms.
\<close>

lemma zero_timestamp_repeated_at_rate_10:
  "fresh_results scripted_capture Narrow (closed_capture (frames_at [0, 0])) ''clip.mp4'' 10 2 0 =
     Some [(True, 0), (True, 0)] \<and>
   fresh_results scripted_capture Wide (closed_capture (frames_at [0, 0])) ''clip.mp4'' 10 2 0 =
     Some [(True, 0), (True, 0)]"
  by code_simp

lemma timestamp_repeated_at_rate_2000:
  "fresh_results scripted_capture Narrow (closed_capture (frames_at [40, 40])) ''clip.mp4'' 2000 2 0 =
     Some [(True, 40), (True, 40)] \<and>
   fresh_results scripted_capture Wide (closed_capture (frames_at [40, 40])) ''clip.mp4'' 2000 2 0 =
     Some [(True, 40), (True, 40)]"
  by code_simp

lemma timestamp_repeated_after_failed_call:
  "fresh_results scripted_capture Narrow
     (closed_capture (frames_at [0, 200] @
        [(False, False, 0), (False, False, 0), (False, False, 0)] @ frames_at [200]))
     ''clip.mp4'' 10 4 0 =
     Some [(True, 0), (True, 200), (False, 0), (True, 200)] \<and>
   fresh_results scripted_capture Wide
     (closed_capture (frames_at [0, 200] @
        [(False, False, 0), (False, False, 0), (False, False, 0)] @ frames_at [200]))
     ''clip.mp4'' 10 4 0 =
     Some [(True, 0), (True, 200), (False, 0), (True, 200)]"
  by code_simp

lemma lower_timestamp_accepted_when_narrow:
  "fresh_results scripted_capture Narrow (closed_capture (frames_at [0, 200, 50])) ''clip.mp4'' 10 3 0 =
     Some [(True, 0), (True, 200), (True, 50)] \<and>
   fresh_results scripted_capture Wide (closed_capture (frames_at [0, 200, 50])) ''clip.mp4'' 10 3 0 =
     Some [(True, 0), (True, 200), (False, 0)]"
  by code_simp

text \<open>
  C1 as amended: take any number of calls of \<^verbatim>\<open>GetFrame\<close> in a row that all returned true,
  at a sampling rate above 0, every frame after the first with a positive timestamp; this
  for every decoder and every state of the reader. When \<^verbatim>\<open>timestamp\<close> is wide, the
  timestamps of the frames never decrease. When the rate is at most 1000 and the
  timestamps never decrease, they are strictly increasing: none is repeated.
\<close>

theorem positive_timestamps_increase:
  assumes "GetFrame_results V T n r bgr_frame = Some results"
    and "\<forall>p\<in>set results. fst p"
    and "0 < sampling_frame_rate r"
    and "\<forall>t\<in>set (tl (map snd results)). 0 < t"
  shows "(T = Wide \<longrightarrow> sorted (map snd results)) \<and>
         (sampling_frame_rate r \<le> 1000 \<longrightarrow> sorted (map snd results) \<longrightarrow>
            sorted_wrt (<) (map snd results))"
proof -
  let ?q = "uint (1000 div sampling_frame_rate r)"
  from GetFrame_results_spaced [OF assms(1,2)]
  have "successively (spaced T (sampling_frame_rate r)) (last_timestamp_ms r # map snd results)" .
  then have s: "successively (spaced T (sampling_frame_rate r)) (map snd results)"
    by (cases "map snd results") simp_all
  have gaps: "successively (\<lambda>t1 t2. ?q \<le> t2 - t1) (map snd results)"
    if "T = Wide \<or> sorted (map snd results)"
    using successively_spaced_gap [OF assms(3) s assms(4) that] .
  have "sorted (map snd results)" if "T = Wide"
    using that gaps successively_gap_sorted(1) [of ?q "map snd results"] by simp
  moreover have "sorted_wrt (<) (map snd results)"
    if "sampling_frame_rate r \<le> 1000" and "sorted (map snd results)"
    using that gaps successively_gap_sorted(2) [of ?q "map snd results"]
      interval_pos [OF assms(3)] by simp
  ultimately show ?thesis by blast
qed

theorem positive_timestamps_increase_witness:
  "GetFrame_results scripted_capture Wide 2
     \<lparr>cap = scripted_at 0 False (frames_at [0, 40, 80, 120, 160, 200]),
      last_timestamp_ms = 4294967196, sampling_frame_rate = 10\<rparr> 0 =
     Some [(True, 0), (True, 120)] \<and>
   sorted_wrt (<) (map snd [(True, 0 :: timestamp), (True, 120)])"
proof -
  let ?r = "\<lparr>cap = scripted_at 0 False (frames_at [0, 40, 80, 120, 160, 200]),
      last_timestamp_ms = 4294967196, sampling_frame_rate = 10\<rparr>"
  have h1: "GetFrame_results scripted_capture Wide 2 ?r 0 = Some [(True, 0), (True, 120)]"
    by code_simp
  have h2: "\<forall>p\<in>set [(True, 0 :: timestamp), (True, 120)]. fst p" by simp
  have h3: "0 < sampling_frame_rate ?r" by simp
  have h4: "\<forall>t\<in>set (tl (map snd [(True, 0 :: timestamp), (True, 120)])). 0 < t" by simp
  have h5: "sampling_frame_rate ?r \<le> 1000" by simp
  from positive_timestamps_increase [OF h1 h2 h3 h4] h5 h1 show ?thesis by simp
qed

subsection \<open>C2: spacing of consecutive frames\<close>

text \<open>
  C2 as stated: for every sampling rate \<open>r > 0\<close> the timestamps of two consecutive frames
  returned by \<^verbatim>\<open>GetFrame\<close> differ by at least \<open>1000 / r\<close> milliseconds, for every decoder,
  those that emit frames with timestamp 0 after the first frame included.

  It fails, whatever the width of \<^verbatim>\<open>timestamp\<close>. The gate applies to positive
  timestamps only (\<^verbatim>\<open>timestamp_ms > 0\<close> in the loop condition): at rate 10 a frame at
  0 ms that follows a frame at 200 ms is returned, 200 ms before its predecessor.
\<close>

theorem zero_timestamp_passes_gate:
  "fresh_results scripted_capture Narrow (closed_capture (frames_at [0, 200, 0])) ''clip.mp4'' 10 3 0 =
     Some [(True, 0), (True, 200), (True, 0)] \<and>
   fresh_results scripted_capture Wide (closed_capture (frames_at [0, 200, 0])) ''clip.mp4'' 10 3 0 =
     Some [(True, 0), (True, 200), (True, 0)] \<and>
   \<not> uint (1000 div (10 :: 32 word)) \<le> (0 :: timestamp) - 200"
  by code_simp

text \<open>
  Two more frames that are returned too close to the frame returned before them, at rate
  10: a frame at 250 ms, 50 ms after the frame at 200 ms, when a call between the two
  returned false (it leaves the timestamp 0 of its failed fetch in
  \<^verbatim>\<open>last_timestamp_ms\<close>); and, for a narrow \<^verbatim>\<open>timestamp\<close>, the frame at 50 ms after the
  frame at 200 ms of \<open>lower_timestamp_accepted_when_narrow\<close>.
\<close>

lemma close_frame_after_failed_call:
  "fresh_results scripted_capture Narrow
     (closed_capture (frames_at [0, 200] @
        [(False, False, 0), (False, False, 0), (False, False, 0)] @ frames_at [250]))
     ''clip.mp4'' 10 4 0 =
     Some [(True, 0), (True, 200), (False, 0), (True, 250)] \<and>
   fresh_results scripted_capture Wide
     (closed_capture (frames_at [0, 200] @
        [(False, False, 0), (False, False, 0), (False, False, 0)] @ frames_at [250]))
     ''clip.mp4'' 10 4 0 =
     Some [(True, 0), (True, 200), (False, 0), (True, 250)]"
  by code_simp

text \<open>
  C2 as amended: for every sampling rate \<open>r > 0\<close>, every decoder and every state of the
  reader, when two calls of \<^verbatim>\<open>GetFrame\<close> in a row both return a frame and the timestamp
  of the second is positive and, unless \<^verbatim>\<open>timestamp\<close> is wide, not below the timestamp
  of the first, the second timestamp is at least \<open>1000 / r\<close> milliseconds above the first.
\<close>

theorem consecutive_frames_spaced:
  assumes "GetFrame V T r bgr_frame = Some (Inr (True, bgr_frame1, timestamp1, r1))"
    and "GetFrame V T r1 bgr_frame1 = Some (Inr (True, bgr_frame2, timestamp2, r2))"
    and "0 < sampling_frame_rate r"
    and "0 < timestamp2"
    and "T = Wide \<or> timestamp1 \<le> timestamp2"
  shows "uint (1000 div sampling_frame_rate r) \<le> timestamp2 - timestamp1"
proof -
  note p1 = GetFrame_post [OF assms(1)]
  from GetFrame_post(3) [OF assms(2)] p1(1,2)
  have "spaced T (sampling_frame_rate r) timestamp1 timestamp2" by simp
  from spaced_gap [OF this assms(3,4,5)] show ?thesis .
qed

theorem consecutive_frames_spaced_witness:
  "GetFrame scripted_capture Narrow
     \<lparr>cap = scripted_at 0 False (frames_at [0, 40, 80, 120, 160, 200]),
      last_timestamp_ms = - 100, sampling_frame_rate = 10\<rparr> 0 =
     Some (Inr (True, 0, 0,
       \<lparr>cap = scripted_at 0 True (frames_at [40, 80, 120, 160, 200]),
        last_timestamp_ms = 0, sampling_frame_rate = 10\<rparr>)) \<and>
   GetFrame scripted_capture Narrow
     \<lparr>cap = scripted_at 0 True (frames_at [40, 80, 120, 160, 200]),
      last_timestamp_ms = 0, sampling_frame_rate = 10\<rparr> 0 =
     Some (Inr (True, 120, 120,
       \<lparr>cap = scripted_at 120 True (frames_at [160, 200]),
        last_timestamp_ms = 120, sampling_frame_rate = 10\<rparr>)) \<and>
   uint (1000 div (10 :: 32 word)) \<le> (120 :: timestamp) - 0"
proof -
  let ?r = "\<lparr>cap = scripted_at 0 False (frames_at [0, 40, 80, 120, 160, 200]),
      last_timestamp_ms = - 100, sampling_frame_rate = 10\<rparr>"
  let ?r1 = "\<lparr>cap = scripted_at 0 True (frames_at [40, 80, 120, 160, 200]),
        last_timestamp_ms = 0, sampling_frame_rate = 10\<rparr>"
  let ?r2 = "\<lparr>cap = scripted_at 120 True (frames_at [160, 200]),
        last_timestamp_ms = 120, sampling_frame_rate = 10\<rparr>"
  have h1: "GetFrame scripted_capture Narrow ?r 0 = Some (Inr (True, 0, 0, ?r1))"
    by code_simp
  have h2: "GetFrame scripted_capture Narrow ?r1 0 = Some (Inr (True, 120, 120, ?r2))"
    by code_simp
  have h3: "0 < sampling_frame_rate ?r" by simp
  have h4: "(0 :: timestamp) < 120" by simp
  have h5: "Narrow = Wide \<or> (0 :: timestamp) \<le> 120" by simp
  from consecutive_frames_spaced [OF h1 h2 h3 h4 h5] h1 h2 show ?thesis by simp
qed

subsection \<open>C3: a retry that replays a timestamp\<close>

text \<open>
  C3: when the first grab/retrieve of a call of \<^verbatim>\<open>GetFrameData\<close> fails and the timestamp
  it ends with (after a retry that decoded a frame, in particular) is not strictly
  greater than the position read before that first attempt, \<^verbatim>\<open>GetFrameData\<close> returns
  false, and so does \<^verbatim>\<open>GetFrame\<close>: the caller is not given the frame.
\<close>

theorem stale_retry_reports_failure:
  assumes "attempt V (cap r) bgr_frame = (frame_found, frame_retrieved, m0, ts0, c0)"
    and "\<not> (frame_found \<and> frame_retrieved)"
    and "GetFrameData V r bgr_frame = (frame_data_loaded, bgr_frame', timestamp_ms, r')"
    and "timestamp_ms \<le> cap_get_pos_msec V (cap r)"
  shows "\<not> frame_data_loaded \<and>
         GetFrame V T r bgr_frame =
           Some (Inr (False, bgr_frame', timestamp_ms, r'\<lparr>last_timestamp_ms := timestamp_ms\<rparr>))"
proof -
  obtain ff1 fr1 m1 ts1 c1 where a1: "attempt V c0 m0 = (ff1, fr1, m1, ts1, c1)"
    by (cases "attempt V c0 m0") auto
  obtain ff2 fr2 m2 ts2 c2 where a2: "attempt V c1 m1 = (ff2, fr2, m2, ts2, c2)"
    by (cases "attempt V c1 m1") auto
  have "\<not> frame_data_loaded"
  proof (cases "ff1 \<and> fr1")
    case True
    with GetFrameData_second [OF assms(1,2)] a1 assms(3,4) show ?thesis by auto
  next
    case False
    with GetFrameData_third [OF assms(1,2) a1 _ a2] assms(3,4) show ?thesis by auto
  qed
  with assms(3) GetFrame_of_failed_fetch [of V r bgr_frame bgr_frame' timestamp_ms r' T]
  show ?thesis by simp
qed

text \<open>
  The witness is a decoder at 80 ms whose next round fails and whose round after that
  decodes a frame and reports 80 ms again.
\<close>

theorem stale_retry_reports_failure_witness:
  "attempt scripted_capture (scripted_at 80 True [(False, False, 0), (True, True, 80)]) 80 =
     (False, False, 80, 0, scripted_at 0 False [(True, True, 80)]) \<and>
   attempt scripted_capture (scripted_at 0 False [(True, True, 80)]) 80 =
     (True, True, 80, 80, scripted_at 80 True []) \<and>
   GetFrame scripted_capture Narrow
     \<lparr>cap = scripted_at 80 True [(False, False, 0), (True, True, 80)],
      last_timestamp_ms = 80, sampling_frame_rate = 0\<rparr> 80 =
     Some (Inr (False, 80, 80,
       \<lparr>cap = scripted_at 80 True [], last_timestamp_ms = 80, sampling_frame_rate = 0\<rparr>))"
proof -
  let ?r = "\<lparr>cap = scripted_at 80 True [(False, False, 0), (True, True, 80)],
      last_timestamp_ms = 80, sampling_frame_rate = 0\<rparr>"
  have h1: "attempt scripted_capture (cap ?r) 80 =
      (False, False, 80, 0, scripted_at 0 False [(True, True, 80)])"
    by code_simp
  have h2: "\<not> (False \<and> False)" by simp
  have h3: "GetFrameData scripted_capture ?r 80 =
      (False, 80, 80,
       \<lparr>cap = scripted_at 80 True [], last_timestamp_ms = 80, sampling_frame_rate = 0\<rparr>)"
    by code_simp
  have h4: "80 \<le> cap_get_pos_msec scripted_capture (cap ?r)" by code_simp
  have h5: "attempt scripted_capture (scripted_at 0 False [(True, True, 80)]) 80 =
     (True, True, 80, 80, scripted_at 80 True [])"
    by code_simp
  from stale_retry_reports_failure [OF h1 h2 h3 h4, of Narrow] h1 h5 show ?thesis by simp
qed

subsection \<open>C4: the initial value of the last timestamp\<close>

text \<open>
  C4: a fresh reader has \<^verbatim>\<open>last_timestamp_ms\<close> equal to \<open>-(1000 / r)\<close> for \<open>r > 0\<close> and to
  \<open>-1\<close> for \<open>r = 0\<close>, and the first frame the decoder delivers is returned by the first
  call of \<^verbatim>\<open>GetFrame\<close>, whatever \<open>r\<close> and the timestamp of the frame.

  Whether the code does this depends on the width of \<^verbatim>\<open>timestamp\<close>, which neither the
  repository nor the spec fixes. Line 31 computes \<^verbatim>\<open>0 - 1000 / sampling_frame_rate\<close> in
  \<^verbatim>\<open>unsigned int\<close>, where it wraps, and converts the \<^verbatim>\<open>-1\<close> of the other branch to
  \<^verbatim>\<open>unsigned int\<close> with it. Assigned to a narrow \<^verbatim>\<open>timestamp\<close> the values come out as
  \<open>-(1000 / r)\<close> and \<open>-1\<close>, and the first frame is returned. Assigned to a wide one
  they stay \<open>4294967296 - 1000 / r\<close> and \<open>4294967295\<close>, and at rate 10 a first frame at
  40 ms is discarded as closer than 100 ms to the last timestamp. The facts below record
  both outcomes; the claim is left open.
\<close>

lemma narrow_initial_timestamp:
  assumes "VideoReader_ctor V Narrow cap0 file_path rate = Inr r"
  shows "last_timestamp_ms r = (if rate = 0 then - 1 else - uint (1000 div rate))"
  using sentinel_value [OF assms] sint_minus_interval [of rate]
  by (simp add: to_timestamp_def)

lemma narrow_first_frame_returned:
  assumes "VideoReader_ctor V Narrow cap0 file_path rate = Inr r"
    and "GetFrameData V r bgr_frame = (True, bgr_frame', timestamp_ms, r')"
    and "0 \<le> timestamp_ms" and "timestamp_ms < 2 ^ 31"
  shows "GetFrame V Narrow r bgr_frame =
           Some (Inr (True, bgr_frame', timestamp_ms, r'\<lparr>last_timestamp_ms := timestamp_ms\<rparr>))"
proof -
  note f = GetFrameData_fields [OF assms(2)]
  have rate: "sampling_frame_rate r = rate"
    using assms(1)
    by (auto simp add: VideoReader_ctor_def initial_timestamp_eq Let_def split: if_splits)
  have "\<not> less_unsigned Narrow (timestamp_ms - last_timestamp_ms r) (1000 div rate)"
    if "0 < rate"
  proof -
    let ?q = "1000 div rate"
    from that narrow_initial_timestamp [OF assms(1)]
    have d: "timestamp_ms - last_timestamp_ms r = timestamp_ms + uint ?q" by simp
    have "uint (word_of_int (timestamp_ms + uint ?q) :: 32 word) =
        (timestamp_ms + uint ?q) mod 2 ^ 32"
      unfolding uint_word_of_int by simp
    also have "\<dots> = timestamp_ms + uint ?q"
      using assms(3,4) interval_le [of rate] by (intro mod_pos_pos_trivial) simp_all
    finally have "uint ?q \<le> uint (word_of_int (timestamp_ms + uint ?q) :: 32 word)"
      using assms(3) by simp
    then show ?thesis
      unfolding d less_unsigned_def by (simp add: word_less_def)
  qed
  then have "GetFrame_loop V Narrow r bgr_frame = Some (Inr (True, bgr_frame', timestamp_ms, r'))"
    using f rate by (subst GetFrame_loop.simps) (auto simp add: assms(2) GetFrame_cond_eq)
  then show ?thesis by (simp add: GetFrame_def)
qed

lemma first_frame_at_40_ms:
  "VideoReader_ctor scripted_capture Narrow (closed_capture (frames_at [40])) ''clip.mp4'' 10 =
     Inr \<lparr>cap = scripted_at 0 False (frames_at [40]),
          last_timestamp_ms = - 100, sampling_frame_rate = 10\<rparr> \<and>
   fresh_results scripted_capture Narrow (closed_capture (frames_at [40])) ''clip.mp4'' 10 1 0 =
     Some [(True, 40)] \<and>
   VideoReader_ctor scripted_capture Wide (closed_capture (frames_at [40])) ''clip.mp4'' 10 =
     Inr \<lparr>cap = scripted_at 0 False (frames_at [40]),
          last_timestamp_ms = 4294967196, sampling_frame_rate = 10\<rparr> \<and>
   fresh_results scripted_capture Wide (closed_capture (frames_at [40])) ''clip.mp4'' 10 1 0 =
     Some [(False, 0)]"
  by code_simp

subsection \<open>C5: a negative sampling rate\<close>

text \<open>
  C5: a negative sampling rate, \<open>-1\<close> for example, makes the constructor fail with
  \<open>InvalidArgument\<close>.

  The code does not do this. The parameter is an \<^verbatim>\<open>unsigned int\<close>: \<open>-1\<close> reaches the
  constructor as \<open>4294967295\<close>, the test \<^verbatim>\<open>sampling_frame_rate < 0\<close> is false for every
  value, and the construction completes (with the interval \<^verbatim>\<open>1000 / 4294967295 = 0\<close> and
  the last timestamp 0, whatever the width of \<^verbatim>\<open>timestamp\<close>).
\<close>

theorem negative_rate_accepted:
  "VideoReader_ctor scripted_capture Narrow (closed_capture []) ''clip.mp4'' (- 1) =
     Inr \<lparr>cap = scripted_at 0 False [],
          last_timestamp_ms = 0, sampling_frame_rate = 4294967295\<rparr> \<and>
   VideoReader_ctor scripted_capture Wide (closed_capture []) ''clip.mp4'' (- 1) =
     Inr \<lparr>cap = scripted_at 0 False [],
          last_timestamp_ms = 0, sampling_frame_rate = 4294967295\<rparr>"
  by code_simp

subsection \<open>C6: sampling rate 0\<close>

text \<open>
  C6: with sampling rate 0 the gate is off: \<^verbatim>\<open>GetFrame\<close> calls \<^verbatim>\<open>GetFrameData\<close> once and
  returns what it returned, so every frame that \<^verbatim>\<open>GetFrameData\<close> delivers is returned
  and none is discarded.
\<close>

theorem gate_disabled_at_rate_0:
  assumes "sampling_frame_rate r = 0"
    and "GetFrameData V r bgr_frame = (frame_data_loaded, bgr_frame', timestamp_ms, r')"
  shows "GetFrame V T r bgr_frame =
           Some (Inr (frame_data_loaded, bgr_frame', timestamp_ms,
                      r'\<lparr>last_timestamp_ms := timestamp_ms\<rparr>))"
  using GetFrame_rate_0 [OF assms(1), of V T bgr_frame] assms(2) by simp

theorem gate_disabled_at_rate_0_witness:
  "GetFrameData scripted_capture
     \<lparr>cap = scripted_at 40 True (frames_at [40]),
      last_timestamp_ms = 40, sampling_frame_rate = 0\<rparr> 40 =
     (True, 40, 40,
      \<lparr>cap = scripted_at 40 True [], last_timestamp_ms = 40, sampling_frame_rate = 0\<rparr>) \<and>
   GetFrame scripted_capture Narrow
     \<lparr>cap = scripted_at 40 True (frames_at [40]),
      last_timestamp_ms = 40, sampling_frame_rate = 0\<rparr> 40 =
     Some (Inr (True, 40, 40,
       \<lparr>cap = scripted_at 40 True [], last_timestamp_ms = 40, sampling_frame_rate = 0\<rparr>))"
proof -
  let ?r = "\<lparr>cap = scripted_at 40 True (frames_at [40]),
      last_timestamp_ms = 40, sampling_frame_rate = 0\<rparr>"
  have h1: "sampling_frame_rate ?r = 0" by simp
  have h2: "GetFrameData scripted_capture ?r 40 =
     (True, 40, 40,
      \<lparr>cap = scripted_at 40 True [], last_timestamp_ms = 40, sampling_frame_rate = 0\<rparr>)"
    by code_simp
  from gate_disabled_at_rate_0 [OF h1 h2, of Narrow] h2 show ?thesis by simp
qed

subsection \<open>C7: unsupported extensions\<close>

text \<open>
  C7: for a path whose extension is not one of \<^verbatim>\<open>.avi .mov .flv .webm .wmv .mp4\<close>
  (compared as written, so \<^verbatim>\<open>.MP4\<close> is not one of them) the constructor fails with
  \<open>UnsupportedFormat\<close>, and the decoder is still in its default-constructed state:
  \<^verbatim>\<open>open\<close> has not been called.
\<close>

theorem unsupported_extension_rejected:
  assumes "extension file_path \<notin> {''.avi'', ''.mov'', ''.flv'', ''.webm'', ''.wmv'', ''.mp4''}"
  shows "VideoReader_ctor V T cap0 file_path rate =
           Inl (UnsupportedFormat (extension file_path), cap0)"
  using assms
  by (simp add: VideoReader_ctor_def initial_timestamp_eq SUPPORTED_EXTS_def Let_def)

theorem unsupported_extension_rejected_witness:
  "extension ''videos/clip.MP4'' = ''.MP4'' \<and>
   VideoReader_ctor scripted_capture Narrow (closed_capture []) ''videos/clip.MP4'' 10 =
     Inl (UnsupportedFormat ''.MP4'', closed_capture []) \<and>
   opened (closed_capture []) = False"
proof -
  have h0: "extension ''videos/clip.MP4'' = ''.MP4''" by code_simp
  have h1: "extension ''videos/clip.MP4'' \<notin>
      {''.avi'', ''.mov'', ''.flv'', ''.webm'', ''.wmv'', ''.mp4''}"
    unfolding h0 by simp
  have h2: "opened (closed_capture []) = False" by code_simp
  from unsupported_extension_rejected
    [OF h1, of scripted_capture Narrow "closed_capture []" 10] h0 h2
  show ?thesis by simp
qed

subsection \<open>C8: the bound of the retries\<close>

text \<open>
  C8: after a first round of grab and retrieve that fails, \<^verbatim>\<open>GetFrameData\<close> makes at most
  2 more. When the second round fails too it makes the third and stops there, whatever a
  fourth would give: the decoder is left in its state after three rounds, and the result
  is true just when the third round decoded a frame with a timestamp above the position
  at the call. When all three fail the result is false and \<^verbatim>\<open>GetFrame\<close> returns false:
  an end of stream, not an error.
\<close>

theorem retry_bound:
  assumes "attempt V (cap r) bgr_frame = (ff0, fr0, m0, ts0, c0)" and "\<not> (ff0 \<and> fr0)"
    and "attempt V c0 m0 = (ff1, fr1, m1, ts1, c1)" and "\<not> (ff1 \<and> fr1)"
    and "attempt V c1 m1 = (ff2, fr2, m2, ts2, c2)"
  shows "MAX_ATTEMPTS = 2 \<and>
         GetFrameData V r bgr_frame =
           (ff2 \<and> fr2 \<and> cap_get_pos_msec V (cap r) < ts2, m2, ts2, r\<lparr>cap := c2\<rparr>) \<and>
         (\<not> (ff2 \<and> fr2) \<longrightarrow>
            GetFrame V T r bgr_frame =
              Some (Inr (False, m2, ts2, r\<lparr>cap := c2, last_timestamp_ms := ts2\<rparr>)))"
proof -
  note d = GetFrameData_third [OF assms]
  have "GetFrame V T r bgr_frame =
          Some (Inr (False, m2, ts2, r\<lparr>cap := c2, last_timestamp_ms := ts2\<rparr>))"
    if "\<not> (ff2 \<and> fr2)"
  proof -
    from that d have "GetFrameData V r bgr_frame = (False, m2, ts2, r\<lparr>cap := c2\<rparr>)"
      by auto
    from GetFrame_of_failed_fetch [OF this] show ?thesis by simp
  qed
  with d show ?thesis by (simp add: MAX_ATTEMPTS_def)
qed

text \<open>
  The witness is a decoder at 80 ms with three failing rounds ahead and then a frame at
  120 ms: the frame at 120 ms is still in the script when \<^verbatim>\<open>GetFrame\<close> returns false.
\<close>

theorem retry_bound_witness:
  "GetFrameData scripted_capture
     \<lparr>cap = scripted_at 80 True
              [(False, False, 0), (True, False, 0), (False, True, 0), (True, True, 120)],
      last_timestamp_ms = 80, sampling_frame_rate = 0\<rparr> 80 =
     (False, 0, 0,
      \<lparr>cap = scripted_at 0 True [(True, True, 120)],
       last_timestamp_ms = 80, sampling_frame_rate = 0\<rparr>) \<and>
   GetFrame scripted_capture Narrow
     \<lparr>cap = scripted_at 80 True
              [(False, False, 0), (True, False, 0), (False, True, 0), (True, True, 120)],
      last_timestamp_ms = 80, sampling_frame_rate = 0\<rparr> 80 =
     Some (Inr (False, 0, 0,
       \<lparr>cap = scripted_at 0 True [(True, True, 120)],
        last_timestamp_ms = 0, sampling_frame_rate = 0\<rparr>))"
proof -
  let ?r = "\<lparr>cap = scripted_at 80 True
              [(False, False, 0), (True, False, 0), (False, True, 0), (True, True, 120)],
      last_timestamp_ms = 80, sampling_frame_rate = 0\<rparr>"
  have h0: "attempt scripted_capture (cap ?r) 80 =
      (False, False, 80, 0,
       scripted_at 0 False [(True, False, 0), (False, True, 0), (True, True, 120)])"
    by code_simp
  have h1: "attempt scripted_capture
       (scripted_at 0 False [(True, False, 0), (False, True, 0), (True, True, 120)]) 80 =
      (True, False, 80, 0, scripted_at 0 False [(False, True, 0), (True, True, 120)])"
    by code_simp
  have h2: "attempt scripted_capture
       (scripted_at 0 False [(False, True, 0), (True, True, 120)]) 80 =
      (False, True, 0, 0, scripted_at 0 True [(True, True, 120)])"
    by code_simp
  have n0: "\<not> (False \<and> False)" and n1: "\<not> (True \<and> False)" by simp_all
  from retry_bound [OF h0 n0 h1 n1 h2, of Narrow] show ?thesis by simp
qed

subsection \<open>C9: calls after the end of the stream\<close>

text \<open>
  C9: once every coming round of grab and retrieve of the decoder fails, each further
  call of \<^verbatim>\<open>GetFrame\<close> returns, and returns false: the last of any number of calls in a
  row does, and none of them ends in an error.
\<close>

theorem exhausted_on_every_later_call:
  assumes "fails_definitively V (cap r) bgr_frame"
  shows "\<exists>bgr_frame' timestamp_ms r'.
           GetFrame_calls V T n r bgr_frame = Some (Inr (False, bgr_frame', timestamp_ms, r'))"
  using assms
proof (induction n arbitrary: r bgr_frame)
  case 0
  from GetFrame_fails_definitively [OF 0, of T] show ?case by auto
next
  case (Suc n)
  from GetFrame_fails_definitively [OF Suc.prems, of T] obtain m' ts r' where
    g: "GetFrame V T r bgr_frame = Some (Inr (False, m', ts, r'))"
    and f: "fails_definitively V (cap r') m'" by blast
  from Suc.IH [OF f] g show ?case by simp
qed

theorem exhausted_on_every_later_call_witness:
  "fails_definitively scripted_capture (scripted_at 200 True []) 200 \<and>
   GetFrame_calls scripted_capture Narrow 2
     \<lparr>cap = scripted_at 200 True [], last_timestamp_ms = 200, sampling_frame_rate = 10\<rparr> 200 =
     Some (Inr (False, 200, 0,
       \<lparr>cap = scripted_at 0 False [], last_timestamp_ms = 0, sampling_frame_rate = 10\<rparr>))"
proof -
  let ?r = "\<lparr>cap = scripted_at 200 True [], last_timestamp_ms = 200,
             sampling_frame_rate = 10\<rparr>"
  have s: "script (scripted_at 200 True []) = []" by code_simp
  have h: "fails_definitively scripted_capture (cap ?r) 200"
    using scripted_end_fails_definitively [OF s] by simp
  have e: "GetFrame_calls scripted_capture Narrow 2 ?r 200 =
     Some (Inr (False, 200, 0,
       \<lparr>cap = scripted_at 0 False [], last_timestamp_ms = 0, sampling_frame_rate = 10\<rparr>))"
    by code_simp
  from exhausted_on_every_later_call [OF h, of Narrow 2] h e show ?thesis by simp
qed

subsection \<open>C10: no division by zero\<close>

text \<open>
  C10: neither of the two divisions by \<^verbatim>\<open>sampling_frame_rate\<close> is reached with a zero
  divisor: the initial value of the last timestamp and the constructor never end in a
  division by zero, and neither do the loop condition and \<^verbatim>\<open>GetFrame\<close>, for every
  sampling rate, 0 included.
\<close>

theorem no_division_by_zero:
  "initial_timestamp rate \<noteq> Inl division_by_zero \<and>
   VideoReader_ctor V T cap0 file_path rate \<noteq> Inl (division_by_zero, c) \<and>
   GetFrame_cond T r timestamp_ms frame_data_loaded \<noteq> Inl division_by_zero \<and>
   GetFrame V T r bgr_frame \<noteq> Some (Inl division_by_zero)"
proof -
  have "VideoReader_ctor V T cap0 file_path rate \<noteq> Inl (division_by_zero, c)"
    by (simp add: VideoReader_ctor_def initial_timestamp_eq Let_def
        InvalidArgument_def UnsupportedFormat_def OpenFailure_def)
  then show ?thesis
    by (simp add: initial_timestamp_eq GetFrame_cond_eq GetFrame_no_error)
qed

theorem no_division_by_zero_witness:
  "initial_timestamp 0 \<noteq> Inl division_by_zero \<and>
   VideoReader_ctor scripted_capture Narrow (closed_capture (frames_at [40])) ''clip.mp4'' 0 \<noteq>
     Inl (division_by_zero, closed_capture (frames_at [40])) \<and>
   GetFrame_cond Narrow
     \<lparr>cap = scripted_at 0 False (frames_at [40]),
      last_timestamp_ms = - 1, sampling_frame_rate = 0\<rparr> 40 True \<noteq>
     Inl division_by_zero \<and>
   GetFrame scripted_capture Narrow
     \<lparr>cap = scripted_at 0 False (frames_at [40]),
      last_timestamp_ms = - 1, sampling_frame_rate = 0\<rparr> 0 \<noteq>
     Some (Inl division_by_zero)"
  by (rule no_division_by_zero)

end
